theory Spec2Isabelle
  imports Main "HOL-Library.Word"
begin

section \<open>Values, exceptions and the stored data\<close>

text \<open>
  The program is \<^verbatim>\<open>simple_form.py\<close>, a Python 2 script (\<^verbatim>\<open>print >> sys.stderr\<close>,
  \<^verbatim>\<open>except EnvironmentError, e\<close>) that keeps notices in an SQLite file. A method of
  \<^verbatim>\<open>Model\<close> becomes a function that takes the database and hands back what the method
  returns or raises, paired with the database as the method leaves it.

  The engine is modelled relationally: a table is the list of its rows, and each SQL text
  of the source is one function, named after the Python variable that holds the text.
  Python integers are unbounded (\<open>int\<close>); an integer of the engine has 64 bits, so a
  stored id is a \<open>64 word\<close> read as a signed number, and binding a Python integer
  outside that range raises \<^verbatim>\<open>OverflowError\<close>. A text is the list of its characters.
  \<^verbatim>\<open>commit()\<close> is the identity on the connection's own view of the data, and failures
  of the storage medium (input/output, locking) are outside the model.
\<close>

datatype sqlval = SNull | SInt int | SText string

text \<open>The Python exception classes that the modelled paths raise.\<close>

datatype exc =
    IntegrityError
  | OperationalError
  | ProgrammingError
  | OverflowError
  | TypeError
  | ZeroDivisionError
  | ValueError

text \<open>
  \<^verbatim>\<open>IntegrityError\<close>, \<^verbatim>\<open>OperationalError\<close> and \<^verbatim>\<open>ProgrammingError\<close> are the subclasses of
  \<^verbatim>\<open>sqlite3.Error\<close>; \<^verbatim>\<open>OverflowError\<close> is Python's own.
\<close>

fun is_sqlite3_Error :: "exc \<Rightarrow> bool" where
  "is_sqlite3_Error IntegrityError = True"
| "is_sqlite3_Error OperationalError = True"
| "is_sqlite3_Error ProgrammingError = True"
| "is_sqlite3_Error OverflowError = False"
| "is_sqlite3_Error TypeError = False"
| "is_sqlite3_Error ZeroDivisionError = False"
| "is_sqlite3_Error ValueError = False"

text \<open>
  A row of table \<^verbatim>\<open>notices\<close>. Columns \<^verbatim>\<open>name\<close>, \<^verbatim>\<open>message\<close> and \<^verbatim>\<open>postdate\<close> are
  \<^verbatim>\<open>NOT NULL\<close>; \<^verbatim>\<open>closedate\<close> is \<^verbatim>\<open>NULL\<close> (here \<open>None\<close>) while the notice is open.
  Column \<^verbatim>\<open>parent_id\<close>, once the migration has added it, is never written or read, so
  the table only records whether the column exists.
\<close>

record notice =
  nid :: "64 word"
  name :: string
  message :: string
  postdate :: string
  closedate :: "string option"

record notices_table =
  parent_col :: bool
  seq :: "64 word"
  rows :: "notice list"

text \<open>
  The database file: each table is absent (\<open>None\<close>) or present. \<open>seq\<close> is the
  \<^verbatim>\<open>AUTOINCREMENT\<close> high-water mark of \<^verbatim>\<open>notices\<close>; a row of \<^verbatim>\<open>versions\<close> is a
  pair (component, version).
\<close>

record db =
  notices :: "notices_table option"
  versions :: "(string \<times> int) list option"

type_synonym cursor = "sqlval list list"

definition is_open :: "notice \<Rightarrow> bool" where
  "is_open n = (closedate n = None)"

text \<open>
  The integers that \<^verbatim>\<open>sqlite3\<close> binds to a statement parameter: those of the signed
  64-bit range. For any other Python integer \<^verbatim>\<open>execute\<close> raises \<^verbatim>\<open>OverflowError\<close>, after
  the statement has been compiled (a missing table is reported first) and before it
  runs.
\<close>

definition in_int64 :: "int \<Rightarrow> bool" where
  "in_int64 i = (- (2 ^ 63) \<le> i \<and> i < 2 ^ 63)"

section \<open>The SQL statements\<close>

text \<open>\<^verbatim>\<open>CREATE TABLE IF NOT EXISTS notices (...)\<close>\<close>

definition prep_table :: "db \<Rightarrow> db" where
  "prep_table d =
     (case notices d of
        None \<Rightarrow> d\<lparr>notices := Some \<lparr>parent_col = False, seq = 0, rows = []\<rparr>\<rparr>
      | Some t \<Rightarrow> d)"

text \<open>\<^verbatim>\<open>SELECT COUNT(id) FROM notices WHERE closedate IS NULL\<close>\<close>

definition qry :: "db \<Rightarrow> exc + cursor" where
  "qry d =
     (case notices d of
        None \<Rightarrow> Inl OperationalError
      | Some t \<Rightarrow> Inr [[SInt (int (length (filter is_open (rows t))))]])"

text \<open>
  \<^verbatim>\<open>SUBSTR(message, 1, ?)\<close>. The engine reads the length as a 32-bit signed integer
  (the low 32 bits of the bound value); a negative length asks for the characters before
  the first one, of which there are none; and the characters are taken up to the first
  NUL character of the text.
\<close>

definition NUL :: char where
  "NUL = Char False False False False False False False False"

definition sql_substr1 :: "string \<Rightarrow> int \<Rightarrow> string" where
  "sql_substr1 s z =
     (let z32 = sint (word_of_int z :: 32 word)
      in if z32 < 0 then [] else take (nat z32) (takeWhile (\<lambda>c. c \<noteq> NUL) s))"

text \<open>
  \<^verbatim>\<open>LIMIT ? OFFSET ?\<close>: a negative offset skips nothing, a negative limit is no limit.
\<close>

definition sql_limit :: "int \<Rightarrow> int \<Rightarrow> 'a list \<Rightarrow> 'a list" where
  "sql_limit lim off xs =
     (let ys = (if off < 0 then xs else drop (nat off) xs)
      in if lim < 0 then ys else take (nat lim) ys)"

text \<open>\<^verbatim>\<open>ORDER BY id DESC\<close>\<close>

definition order_by_id_desc :: "notice list \<Rightarrow> notice list" where
  "order_by_id_desc ns = sort_key (\<lambda>n. - sint (nid n)) ns"

definition listing_row :: "int \<Rightarrow> notice \<Rightarrow> sqlval list" where
  "listing_row width n =
     [SInt (sint (nid n)), SText (name n), SText (postdate n),
      SText (sql_substr1 (message n) width)]"

text \<open>
  \<^verbatim>\<open>SELECT id, name, postdate, SUBSTR(message, 1, ?) FROM notices
  WHERE closedate IS NULl ORDER BY id DESC LIMIT ? OFFSET ?\<close>
\<close>

definition get_entries :: "db \<Rightarrow> int \<Rightarrow> int \<Rightarrow> int \<Rightarrow> exc + cursor" where
  "get_entries d width lim off =
     (case notices d of
        None \<Rightarrow> Inl OperationalError
      | Some t \<Rightarrow>
          if in_int64 width \<and> in_int64 lim \<and> in_int64 off
          then Inr (map (listing_row width)
                      (sql_limit lim off (order_by_id_desc (filter is_open (rows t)))))
          else Inl OverflowError)"

text \<open>
  \<^verbatim>\<open>INSERT INTO notices (name, message) VALUES (?, ?)\<close>. A present value is a Python 2
  \<^verbatim>\<open>str\<close>, as the form fields are; \<^verbatim>\<open>sqlite3\<close> refuses to bind one that has a character
  above 127 (\<^verbatim>\<open>ProgrammingError\<close>: "You must not use 8-bit bytestrings"). A Python
  \<^verbatim>\<open>None\<close> is bound as \<^verbatim>\<open>NULL\<close> and violates \<^verbatim>\<open>NOT NULL\<close>.
\<close>

definition seven_bit :: "string \<Rightarrow> bool" where
  "seven_bit s = list_all (\<lambda>c. \<not> digit7 c) s"

definition bindable :: "string option \<Rightarrow> bool" where
  "bindable v = (case v of None \<Rightarrow> True | Some s \<Rightarrow> seven_bit s)"

text \<open>
  \<^verbatim>\<open>AUTOINCREMENT\<close>. The engine takes one more than the largest id in the table (1 for
  a table without rows), or one more than the high-water mark \<open>seq\<close> when that is larger.
  When the largest id or the mark is the largest integer, \<open>2 ^ 63 - 1\<close>, it refuses the
  insertion (\<^verbatim>\<open>OperationalError\<close>: "database or disk is full"), before it checks
  \<^verbatim>\<open>NOT NULL\<close>.
\<close>

definition max_rowid :: int where
  "max_rowid = 2 ^ 63 - 1"

definition ids_full :: "notices_table \<Rightarrow> bool" where
  "ids_full t =
     (sint (seq t) = max_rowid \<or> list_ex (\<lambda>n. sint (nid n) = max_rowid) (rows t))"

definition next_id :: "notices_table \<Rightarrow> int" where
  "next_id t =
     max (case rows t of
            [] \<Rightarrow> 1
          | n # ns \<Rightarrow> fold max (map (\<lambda>m. sint (nid m)) ns) (sint (nid n)) + 1)
         (sint (seq t) + 1)"

text \<open>
  The new row has \<^verbatim>\<open>postdate\<close> the current time and \<^verbatim>\<open>closedate\<close> \<^verbatim>\<open>NULL\<close>. The second
  component of the result is the cursor's \<^verbatim>\<open>lastrowid\<close>.
\<close>

definition stmt :: "string \<Rightarrow> db \<Rightarrow> string option \<Rightarrow> string option \<Rightarrow> exc + (db \<times> int)" where
  "stmt now d nm msg =
     (case notices d of
        None \<Rightarrow> Inl OperationalError
      | Some t \<Rightarrow>
          if \<not> (bindable nm \<and> bindable msg) then Inl ProgrammingError
          else if ids_full t then Inl OperationalError
          else
            (case nm of
               None \<Rightarrow> Inl IntegrityError
             | Some n \<Rightarrow>
                 (case msg of
                    None \<Rightarrow> Inl IntegrityError
                  | Some m \<Rightarrow>
                      Inr (d\<lparr>notices := Some (t\<lparr>seq := word_of_int (next_id t),
                              rows := rows t @
                                [\<lparr>nid = word_of_int (next_id t), name = n, message = m,
                                  postdate = now, closedate = None\<rparr>]\<rparr>)\<rparr>,
                           next_id t))))"

definition sql_of_date :: "string option \<Rightarrow> sqlval" where
  "sql_of_date c = (case c of None \<Rightarrow> SNull | Some ts \<Rightarrow> SText ts)"

definition full_row :: "notice \<Rightarrow> sqlval list" where
  "full_row n =
     [SInt (sint (nid n)), SText (name n), SText (postdate n), SText (message n),
      sql_of_date (closedate n)]"

text \<open>
  The parameter of \<^verbatim>\<open>WHERE id=?\<close>: \<open>Some i\<close> is the Python integer \<open>i\<close> (a form field
  that spells an integer of the engine's range compares with the column as that
  integer does), \<open>None\<close> is Python's \<^verbatim>\<open>None\<close>, bound as \<^verbatim>\<open>NULL\<close>, which equals no id.
\<close>

definition entry_bindable :: "int option \<Rightarrow> bool" where
  "entry_bindable entry = (case entry of None \<Rightarrow> True | Some i \<Rightarrow> in_int64 i)"

definition id_is :: "int option \<Rightarrow> notice \<Rightarrow> bool" where
  "id_is entry n = (Some (sint (nid n)) = entry)"

text \<open>\<^verbatim>\<open>SELECT id, name, postdate, message, closedate FROM notices WHERE id=?\<close>\<close>

definition chk :: "db \<Rightarrow> int option \<Rightarrow> exc + cursor" where
  "chk d entry =
     (case notices d of
        None \<Rightarrow> Inl OperationalError
      | Some t \<Rightarrow>
          if entry_bindable entry then Inr (map full_row (filter (id_is entry) (rows t)))
          else Inl OverflowError)"

text \<open>\<^verbatim>\<open>UPDATE notices set closedate=DATETIME('NOW') WHERE id=?\<close>\<close>

definition set_closedate :: "string \<Rightarrow> db \<Rightarrow> int option \<Rightarrow> exc + db" where
  "set_closedate now d entry =
     (case notices d of
        None \<Rightarrow> Inl OperationalError
      | Some t \<Rightarrow>
          if entry_bindable entry
          then Inr (d\<lparr>notices := Some (t\<lparr>rows :=
                      map (\<lambda>n. if id_is entry n then n\<lparr>closedate := Some now\<rparr> else n)
                        (rows t)\<rparr>)\<rparr>)
          else Inl OverflowError)"

text \<open>\<^verbatim>\<open>CREATE TABLE IF NOT EXISTS versions (...)\<close>\<close>

definition mk_table :: "db \<Rightarrow> db" where
  "mk_table d = (case versions d of None \<Rightarrow> d\<lparr>versions := Some []\<rparr> | Some vs \<Rightarrow> d)"

text \<open>\<^verbatim>\<open>SELECT version FROM versions WHERE component = 'schema'\<close>\<close>

definition chk_version :: "db \<Rightarrow> exc + cursor" where
  "chk_version d =
     (case versions d of
        None \<Rightarrow> Inl OperationalError
      | Some vs \<Rightarrow> Inr (map (\<lambda>cv. [SInt (snd cv)]) (filter (\<lambda>cv. fst cv = ''schema'') vs)))"

text \<open>
  \<^verbatim>\<open>ALTER TABLE notices ADD COLUMN parent_id INTEGER\<close>: fails when the table is absent
  or already has the column.
\<close>

definition add_parent_col :: "db \<Rightarrow> exc + db" where
  "add_parent_col d =
     (case notices d of
        None \<Rightarrow> Inl OperationalError
      | Some t \<Rightarrow>
          if parent_col t then Inl OperationalError
          else Inr (d\<lparr>notices := Some (t\<lparr>parent_col := True\<rparr>)\<rparr>))"

text \<open>
  \<^verbatim>\<open>INSERT OR REPLACE INTO versions (component, version) VALUES ('schema', 1)\<close>:
  \<^verbatim>\<open>component\<close> is \<^verbatim>\<open>UNIQUE\<close>, so a row of the same component is replaced.
\<close>

definition set_new_version :: "db \<Rightarrow> exc + db" where
  "set_new_version d =
     (case versions d of
        None \<Rightarrow> Inl OperationalError
      | Some vs \<Rightarrow>
          Inr (d\<lparr>versions := Some (filter (\<lambda>cv. fst cv \<noteq> ''schema'') vs @ [(''schema'', 1)])\<rparr>))"

section \<open>Python values\<close>

text \<open>\<^verbatim>\<open>'%s' % v\<close> for the values a row holds.\<close>

fun str_nat :: "nat \<Rightarrow> string" where
  "str_nat n =
     (if n < 10 then [''0123456789'' ! n]
      else str_nat (n div 10) @ [''0123456789'' ! (n mod 10)])"

definition str_int :: "int \<Rightarrow> string" where
  "str_int i = (if i < 0 then CHR ''-'' # str_nat (nat (- i)) else str_nat (nat i))"

fun py_str :: "sqlval \<Rightarrow> string" where
  "py_str SNull = ''None''"
| "py_str (SInt i) = str_int i"
| "py_str (SText s) = s"

text \<open>
  The truth value of a \<^verbatim>\<open>sqlite3.Cursor\<close>: the class defines neither \<^verbatim>\<open>__nonzero__\<close>
  nor \<^verbatim>\<open>__len__\<close>, so every cursor is true, whatever rows it holds.
\<close>

definition cursor_truth :: "cursor \<Rightarrow> bool" where
  "cursor_truth c = True"

definition fetchone :: "cursor \<Rightarrow> sqlval list option" where
  "fetchone c = (case c of [] \<Rightarrow> None | r # rest \<Rightarrow> Some r)"

definition fetchall :: "cursor \<Rightarrow> sqlval list list" where
  "fetchall c = c"

text \<open>
  Python 2 orders a tuple against an integer by the default comparison of objects of
  different types, in which a number is smaller than any object that is not a number:
  \<^verbatim>\<open>(0,) < 1\<close> is \<^verbatim>\<open>False\<close>, and so is every \<^verbatim>\<open>tuple < int\<close>.
\<close>

definition py2_tuple_lt_int :: "sqlval list \<Rightarrow> int \<Rightarrow> bool" where
  "py2_tuple_lt_int row n = False"

text \<open>Python 2 \<^verbatim>\<open>a / b\<close> on integers: floor division, \<^verbatim>\<open>ZeroDivisionError\<close> on zero.\<close>

definition py2_div :: "int \<Rightarrow> int \<Rightarrow> exc + int" where
  "py2_div a b = (if b = 0 then Inl ZeroDivisionError else Inr (a div b))"

section \<open>class Model\<close>

definition schema_version :: int where
  "schema_version = 1"

text \<open>
  \<^verbatim>\<open>migrate\<close>: the two statements run inside \<^verbatim>\<open>try\<close>; \<^verbatim>\<open>except sqlite3.Error\<close> turns a
  failure into the return value \<^verbatim>\<open>False\<close>, and any other exception passes.
\<close>

definition migrate :: "db \<Rightarrow> (exc + bool) \<times> db" where
  "migrate d =
     (case add_parent_col d of
        Inl e \<Rightarrow> (if is_sqlite3_Error e then (Inr False, d) else (Inl e, d))
      | Inr d1 \<Rightarrow>
          (case set_new_version d1 of
             Inl e \<Rightarrow> (if is_sqlite3_Error e then (Inr False, d1) else (Inl e, d1))
           | Inr d2 \<Rightarrow> (Inr True, d2)))"

text \<open>
  \<^verbatim>\<open>check_schema\<close>: \<^verbatim>\<open>if not ver or ver[0] < Model.schema_version: self.migrate()\<close>. The
  value of \<^verbatim>\<open>migrate\<close> is dropped and the method returns \<^verbatim>\<open>None\<close>, here \<open>()\<close>.
\<close>

definition check_schema :: "db \<Rightarrow> (exc + unit) \<times> db" where
  "check_schema d =
     (let d1 = mk_table d in
      case chk_version d1 of
        Inl e \<Rightarrow> (Inl e, d1)
      | Inr c \<Rightarrow>
          (let ver = fetchall c in
           if (case ver of [] \<Rightarrow> True | v # rest \<Rightarrow> py2_tuple_lt_int v schema_version)
           then (case migrate d1 of
                   (Inl e, d2) \<Rightarrow> (Inl e, d2)
                 | (Inr b, d2) \<Rightarrow> (Inr (), d2))
           else (Inr (), d1)))"

text \<open>\<^verbatim>\<open>Model.__init__\<close> on the database file \<open>d\<close>.\<close>

definition Model_init :: "db \<Rightarrow> (exc + unit) \<times> db" where
  "Model_init d = check_schema (prep_table d)"

definition get_open_entry_count :: "db \<Rightarrow> (exc + int) \<times> db" where
  "get_open_entry_count d =
     (case qry d of
        Inl e \<Rightarrow> (Inl e, d)
      | Inr c \<Rightarrow>
          (case fetchone c of
             None \<Rightarrow> (Inl TypeError, d)
           | Some r \<Rightarrow> (case r of SInt k # rest \<Rightarrow> (Inr k, d) | _ \<Rightarrow> (Inl TypeError, d))))"

definition get_open_entries ::
  "db \<Rightarrow> int \<Rightarrow> int \<Rightarrow> int \<Rightarrow> (exc + (sqlval list list \<times> int)) \<times> db" where
  "get_open_entries d count offset width =
     (let offset1 = offset * count in
      case get_entries d width count offset1 of
        Inl e \<Rightarrow> (Inl e, d)
      | Inr current \<Rightarrow>
          (case get_open_entry_count d of
             (Inl e, d1) \<Rightarrow> (Inl e, d1)
           | (Inr k, d1) \<Rightarrow>
               (case py2_div k count of
                  Inl e \<Rightarrow> (Inl e, d1)
                | Inr pagecount \<Rightarrow> (Inr (fetchall current, pagecount), d1))))"

definition create_entry :: "string \<Rightarrow> db \<Rightarrow> string option \<Rightarrow> string option \<Rightarrow> (exc + int) \<times> db" where
  "create_entry now d nm msg =
     (case stmt now d nm msg of
        Inl e \<Rightarrow> (Inl e, d)
      | Inr (d1, lastrowid) \<Rightarrow> (Inr lastrowid, d1))"

text \<open>
  \<^verbatim>\<open>close_entry\<close>. \<^verbatim>\<open>if row:\<close> tests the cursor, before \<^verbatim>\<open>fetchone()\<close>; when no row
  matches, \<^verbatim>\<open>fetchone()\<close> gives \<^verbatim>\<open>None\<close> and \<^verbatim>\<open>row[4]\<close> raises \<^verbatim>\<open>TypeError\<close>.
\<close>

definition close_entry :: "string \<Rightarrow> db \<Rightarrow> int option \<Rightarrow> (exc + string) \<times> db" where
  "close_entry now d entry =
     (case chk d entry of
        Inl e \<Rightarrow> (Inl e, d)
      | Inr row \<Rightarrow>
          if cursor_truth row then
            (case fetchone row of
               None \<Rightarrow> (Inl TypeError, d)
             | Some r \<Rightarrow>
                 if r ! 4 \<noteq> SNull
                 then (Inr (''Entry '' @ py_str (r ! 0) @ '' was already closed on '' @ py_str (r ! 4)), d)
                 else (case set_closedate now d entry of
                         Inl e \<Rightarrow> (Inl e, d)
                       | Inr d1 \<Rightarrow> (Inr (''Entry_'' @ py_str (r ! 0) @ ''_closed''), d1)))
          else (Inr ''Bad entry: Cannot close'', d))"

section \<open>class Command and the command line\<close>

text \<open>
  What a function of \<^verbatim>\<open>Command\<close> hands back: \<^verbatim>\<open>backup\<close> returns a pair (status,
  message), the fall-through of \<^verbatim>\<open>call\<close> returns the string \<^verbatim>\<open>'Unknown command'\<close>.
\<close>

datatype retval = RStr string | RPair int string

text \<open>
  An attribute of class \<^verbatim>\<open>Command\<close> as \<^verbatim>\<open>getattr\<close> finds it: callable, with what the
  call on the remaining arguments gives, or not callable.
\<close>

datatype attr = NotCallable | Callable "string list \<Rightarrow> exc + retval"

text \<open>
  The surroundings of \<^verbatim>\<open>backup\<close>: \<open>epoch\<close> is \<^verbatim>\<open>int(time.time())\<close>, and
  \<open>subprocess_call\<close> is \<^verbatim>\<open>subprocess.call\<close>, which returns the exit status or raises
  \<^verbatim>\<open>EnvironmentError\<close> (\<open>Inl\<close>, with the error's text).
\<close>

record env =
  epoch :: int
  subprocess_call :: "string list \<Rightarrow> string + int"

definition backup :: "env \<Rightarrow> string list \<Rightarrow> exc + retval" where
  "backup ev args =
     (if 1 < length args then Inl TypeError
      else
        (let filename0 = (case args of [] \<Rightarrow> ''notifications.db.bak'' | f # rest \<Rightarrow> f);
             filename = filename0 @ ''.'' @ str_int (epoch ev);
             cmd = [''sqlite3'', ''-batch'', ''notifications.db'', ''.backup '' @ filename]
         in case subprocess_call ev cmd of
              Inl e \<Rightarrow> Inr (RPair 127 (''Unable to execute sqlite3: '' @ e))
            | Inr retval \<Rightarrow>
                if retval \<noteq> 0 then Inr (RPair retval (''Some error occurred: '' @ str_int retval))
                else Inr (RPair retval ''Success'')))"

text \<open>
  \<^verbatim>\<open>Command.call\<close>: \<open>cls\<close> maps a name to the attribute of that name of class
  \<^verbatim>\<open>Command\<close>, \<open>None\<close> when \<^verbatim>\<open>hasattr\<close> is false.
\<close>

definition Command_call :: "(string \<Rightarrow> attr option) \<Rightarrow> string \<Rightarrow> string list \<Rightarrow> exc + retval" where
  "Command_call cls cmd args =
     (case cls cmd of
        None \<Rightarrow> Inr (RStr ''Unknown command'')
      | Some NotCallable \<Rightarrow> Inr (RStr ''Unknown command'')
      | Some (Callable func) \<Rightarrow> func args)"

text \<open>
  The attributes of \<^verbatim>\<open>Command\<close>: \<^verbatim>\<open>backup\<close>, and the others (\<^verbatim>\<open>call\<close> itself and
  what the class inherits from \<^verbatim>\<open>object\<close>), which are a parameter.
\<close>

definition Command_attrs :: "env \<Rightarrow> (string \<Rightarrow> attr option) \<Rightarrow> string \<Rightarrow> attr option" where
  "Command_attrs ev other = other(''backup'' \<mapsto> Callable (backup ev))"

text \<open>
  \<^verbatim>\<open>exitval, msg = Command.call(command, *line)\<close> unpacks the result into two names: a
  pair gives its components, a string gives its characters when there are exactly two
  and raises \<^verbatim>\<open>ValueError\<close> otherwise.
\<close>

datatype exit_arg = ExitInt int | ExitStr string

fun unpack2 :: "retval \<Rightarrow> exc + (exit_arg \<times> string)" where
  "unpack2 (RPair i s) = Inr (ExitInt i, s)"
| "unpack2 (RStr s) =
     (if length s = 2 then Inr (ExitStr [s ! 0], [s ! 1]) else Inl ValueError)"

text \<open>
  How the process ends: it serves requests (no argument), it prints \<open>msg\<close> on the
  standard error and calls \<^verbatim>\<open>sys.exit(exitval)\<close>, or an exception nobody catches ends
  it with a traceback.
\<close>

datatype proc_end = Serving | Exited exit_arg string | Uncaught exc

definition main :: "(string \<Rightarrow> attr option) \<Rightarrow> string list \<Rightarrow> proc_end" where
  "main cls arguments =
     (case arguments of
        [] \<Rightarrow> Serving
      | command # line \<Rightarrow>
          (case Command_call cls command line of
             Inl e \<Rightarrow> Uncaught e
           | Inr rv \<Rightarrow>
               (case unpack2 rv of
                  Inl e \<Rightarrow> Uncaught e
                | Inr (exitval, msg) \<Rightarrow> Exited exitval msg)))"

section \<open>Sequences of calls, the spec's error classes, sample databases\<close>

text \<open>A call of a method of \<^verbatim>\<open>Model\<close>, and the database it leaves.\<close>

datatype call =
    Init
  | CheckSchema
  | Migrate
  | CountOpen
  | ListOpen int int int
  | Create "string option" "string option"
  | Close "int option"

fun after :: "string \<Rightarrow> call \<Rightarrow> db \<Rightarrow> db" where
  "after now Init d = snd (Model_init d)"
| "after now CheckSchema d = snd (check_schema d)"
| "after now Migrate d = snd (migrate d)"
| "after now CountOpen d = snd (get_open_entry_count d)"
| "after now (ListOpen cnt offset width) d = snd (get_open_entries d cnt offset width)"
| "after now (Create nm msg) d = snd (create_entry now d nm msg)"
| "after now (Close entry) d = snd (close_entry now d entry)"

text \<open>A run: each call with the time at which it happens.\<close>

fun run :: "(string \<times> call) list \<Rightarrow> db \<Rightarrow> db" where
  "run [] d = d"
| "run (tc # tcs) d = run tcs (after (fst tc) (snd tc) d)"

text \<open>\<^verbatim>\<open>id INTEGER PRIMARY KEY\<close>: no two rows of \<^verbatim>\<open>notices\<close> share an id.\<close>

definition unique_ids :: "db \<Rightarrow> bool" where
  "unique_ids d = (case notices d of None \<Rightarrow> True | Some t \<Rightarrow> distinct (map nid (rows t)))"

definition notice_rows :: "db \<Rightarrow> notice list" where
  "notice_rows d = (case notices d of None \<Rightarrow> [] | Some t \<Rightarrow> rows t)"

definition version_rows :: "db \<Rightarrow> (string \<times> int) list" where
  "version_rows d = (case versions d of None \<Rightarrow> [] | Some vs \<Rightarrow> vs)"

text \<open>
  The error classes of the specification (its section 7). \<open>StorageError\<close> is a
  "constraint violation or I/O failure from the persistence layer", that is an
  \<^verbatim>\<open>sqlite3.Error\<close>; the program raises no exception of its own for the other classes.
\<close>

datatype spec_error =
    ValidationError
  | StorageError
  | NotFoundError
  | AlreadyClosedError
  | MigrationError
  | ToolMissingError
  | ToolFailedError

definition spec_error_of :: "exc \<Rightarrow> spec_error option" where
  "spec_error_of e = (if is_sqlite3_Error e then Some StorageError else None)"

definition empty_file :: db where
  "empty_file = \<lparr>notices = None, versions = None\<rparr>"

definition fresh_store :: db where
  "fresh_store =
     \<lparr>notices = Some \<lparr>parent_col = True, seq = 0, rows = []\<rparr>,
      versions = Some [(''schema'', 1)]\<rparr>"

text \<open>Three open notices (ids 1, 3, 4) and a closed one (id 2).\<close>

definition sample_rows :: "notice list" where
  "sample_rows =
     [\<lparr>nid = 1, name = ''Alice'', message = ''Hello'', postdate = ''2024-01-01 10:00:00'',
       closedate = None\<rparr>,
      \<lparr>nid = 2, name = ''Bob'', message = ''World'', postdate = ''2024-01-01 11:00:00'',
       closedate = Some ''2024-01-02 09:30:00''\<rparr>,
      \<lparr>nid = 3, name = ''Carol'', message = ''Lunch at noon'', postdate = ''2024-01-03 08:00:00'',
       closedate = None\<rparr>,
      \<lparr>nid = 4, name = ''Dan'', message = replicate 100 CHR ''x'', postdate = ''2024-01-04 08:00:00'',
       closedate = None\<rparr>]"

definition sample_store :: db where
  "sample_store =
     \<lparr>notices = Some \<lparr>parent_col = True, seq = 4, rows = sample_rows\<rparr>,
      versions = Some [(''schema'', 1)]\<rparr>"

text \<open>A file whose version row is older than \<open>schema_version\<close>.\<close>

definition stale_store :: db where
  "stale_store =
     \<lparr>notices = Some \<lparr>parent_col = False, seq = 0, rows = []\<rparr>,
      versions = Some [(''schema'', 0)]\<rparr>"

text \<open>A store whose only notice has the largest id, \<open>2 ^ 63 - 1\<close>.\<close>

definition ceiling_table :: notices_table where
  "ceiling_table =
     \<lparr>parent_col = True, seq = 9223372036854775807,
      rows = [\<lparr>nid = 9223372036854775807, name = ''Zed'', message = ''Last'',
               postdate = ''2024-01-05 08:00:00'', closedate = None\<rparr>]\<rparr>"

definition ceiling_store :: db where
  "ceiling_store = \<lparr>notices = Some ceiling_table, versions = Some [(''schema'', 1)]\<rparr>"



text \<open>A file that has column \<^verbatim>\<open>parent_id\<close> but no version row.\<close>

definition unversioned_store :: db where
  "unversioned_store =
     \<lparr>notices = Some \<lparr>parent_col = True, seq = 0, rows = []\<rparr>,
      versions = Some []\<rparr>"


definition fresh_table :: notices_table where
  "fresh_table = \<lparr>parent_col = True, seq = 0, rows = []\<rparr>"

text \<open>The closed notice of \<open>sample_rows\<close>, and the table that holds them.\<close>

definition closed_sample :: notice where
  "closed_sample =
     \<lparr>nid = 2, name = ''Bob'', message = ''World'', postdate = ''2024-01-01 11:00:00'',
      closedate = Some ''2024-01-02 09:30:00''\<rparr>"

definition sample_table :: notices_table where
  "sample_table = \<lparr>parent_col = True, seq = 4, rows = sample_rows\<rparr>"

text \<open>A run that tries to close the closed notice again, among other calls.\<close>

definition sample_run :: "(string \<times> call) list" where
  "sample_run =
     [(''2024-02-01 12:00:00'', Close (Some 2)),
      (''2024-02-01 12:05:00'', Create (Some ''Eve'') (Some ''Again'')),
      (''2024-02-01 12:10:00'', Close (Some 3)),
      (''2024-02-01 12:15:00'', ListOpen 1 0 72),
      (''2024-02-01 12:20:00'', Init)]"


section \<open>Facts about the statements and the methods\<close>

lemma in_int64_0: "in_int64 0"
  by (simp add: in_int64_def)

lemma get_open_entry_count_present:
  "notices d = Some t \<Longrightarrow>
   get_open_entry_count d = (Inr (int (length (filter is_open (rows t)))), d)"
  by (simp add: get_open_entry_count_def qry_def fetchone_def)

lemma get_open_entries_present:
  assumes "notices d = Some t" and "count \<noteq> 0"
    and "in_int64 width" and "in_int64 count" and "in_int64 (offset * count)"
  shows "get_open_entries d count offset width =
    (Inr (map (listing_row width)
            (sql_limit count (offset * count) (order_by_id_desc (filter is_open (rows t)))),
          int (length (filter is_open (rows t))) div count), d)"
  using assms
  by (simp add: get_open_entries_def get_entries_def get_open_entry_count_present
      py2_div_def fetchall_def)

lemma get_open_entries_overflow:
  assumes "notices d = Some t"
    and "\<not> (in_int64 width \<and> in_int64 count \<and> in_int64 (offset * count))"
  shows "get_open_entries d count offset width = (Inl OverflowError, d)"
  using assms
  by (auto simp add: get_open_entries_def get_entries_def)

lemma zero_count_raises:
  assumes "notices d = Some t" and "in_int64 width"
  shows "get_open_entries d 0 offset width = (Inl ZeroDivisionError, d)"
  using assms
  by (simp add: get_open_entries_def get_entries_def get_open_entry_count_present
      py2_div_def fetchall_def in_int64_0)

lemma get_open_entry_count_frame: "snd (get_open_entry_count d) = d"
  by (simp add: get_open_entry_count_def qry_def fetchone_def split: option.splits)

lemma get_open_entries_frame: "snd (get_open_entries d count offset width) = d"
proof -
  obtain r where c: "get_open_entry_count d = (r, d)"
    using get_open_entry_count_frame [of d] by (cases "get_open_entry_count d") simp
  show ?thesis
    by (cases r)
      (simp_all add: get_open_entries_def Let_def c py2_div_def split: sum.splits)
qed

lemma order_by_id_desc_sorted:
  "sorted_wrt (\<lambda>a b. sint (nid b) \<le> sint (nid a)) (order_by_id_desc ns)"
proof -
  have "sorted (map (\<lambda>n. - sint (nid n)) (order_by_id_desc ns))"
    by (simp add: order_by_id_desc_def)
  then show ?thesis
    by (simp add: sorted_wrt_map)
qed

lemma order_by_id_desc_set: "set (order_by_id_desc ns) = set ns"
  by (simp add: order_by_id_desc_def)

lemma order_by_id_desc_length: "length (order_by_id_desc ns) = length ns"
  by (simp add: order_by_id_desc_def)

lemma sql_limit_nonneg:
  "0 \<le> lim \<Longrightarrow> 0 \<le> off \<Longrightarrow> sql_limit lim off xs = take (nat lim) (drop (nat off) xs)"
  by (simp add: sql_limit_def)


lemma sint64_self:
  assumes "in_int64 i"
  shows "sint (word_of_int i :: 64 word) = i"
  using assms by (simp add: in_int64_def sint_sbintrunc' signed_take_bit_int_eq_self)

lemma in_int64_sint: "in_int64 (sint (w :: 64 word))"
  using sint_ge [of w] sint_lt [of w] by (simp add: in_int64_def)



lemma filter_key_single:
  "distinct (map f xs) \<Longrightarrow> x \<in> set xs \<Longrightarrow> filter (\<lambda>y. f y = f x) xs = [x]"
proof (induction xs)
  case Nil
  then show ?case by simp
next
  case (Cons a xs)
  show ?case
  proof (cases "a = x")
    case True
    have "f x \<notin> f ` set xs"
      using Cons.prems(1) True by simp
    then have "\<forall>y \<in> set xs. f y \<noteq> f x"
      by (metis imageI)
    then have "filter (\<lambda>y. f y = f x) xs = []"
      by (simp add: filter_empty_conv)
    then show ?thesis using True by simp
  next
    case False
    then have mem: "x \<in> set xs" using Cons.prems(2) by simp
    then have "f a \<noteq> f x" using Cons.prems(1) by auto
    then show ?thesis using Cons.IH Cons.prems(1) mem by simp
  qed
qed

lemma fold_max_ge_init: "(s::int) \<le> fold max xs s"
  by (induction xs arbitrary: s) (auto intro: order_trans [OF max.cobounded2])

lemma fold_max_ge_elem: "(x::int) \<in> set xs \<Longrightarrow> x \<le> fold max xs s"
proof (induction xs arbitrary: s)
  case Nil
  then show ?case by simp
next
  case (Cons a xs)
  show ?case
  proof (cases "x = a")
    case True
    have "max a s \<le> fold max xs (max a s)" by (rule fold_max_ge_init)
    then show ?thesis using True by simp
  next
    case False
    then show ?thesis using Cons by simp
  qed
qed

lemma sint_eq_iff: "sint (v :: 64 word) = sint w \<longleftrightarrow> v = w"
  by (auto intro: signed_word_eqI)

lemma id_is_sint: "id_is (Some (sint (nid n))) m \<longleftrightarrow> nid m = nid n"
  by (simp add: id_is_def sint_eq_iff)

lemma entry_bindable_sint: "entry_bindable (Some (sint (w :: 64 word)))"
  by (simp add: entry_bindable_def in_int64_sint)

lemma next_id_above: "n \<in> set (rows t) \<Longrightarrow> sint (nid n) < next_id t"
proof -
  assume mem: "n \<in> set (rows t)"
  then obtain a ns where r: "rows t = a # ns" by (cases "rows t") auto
  have "sint (nid n) \<le> fold max (map (\<lambda>m. sint (nid m)) ns) (sint (nid a))"
  proof (cases "n = a")
    case True
    then show ?thesis by (simp add: fold_max_ge_init)
  next
    case False
    then have "sint (nid n) \<in> set (map (\<lambda>m. sint (nid m)) ns)"
      using mem r by auto
    then show ?thesis by (rule fold_max_ge_elem)
  qed
  then show ?thesis by (simp add: next_id_def r)
qed

lemma fold_max_le: "(s::int) \<le> b \<Longrightarrow> \<forall>x \<in> set xs. x \<le> b \<Longrightarrow> fold max xs s \<le> b"
  by (induction xs arbitrary: s) auto

lemma next_id_in_range:
  assumes "\<not> ids_full t"
  shows "in_int64 (next_id t)"
proof -
  have seq: "sint (seq t) < max_rowid"
    using assms sint_lt [of "seq t"] by (simp add: ids_full_def max_rowid_def)
  have ids: "\<forall>n \<in> set (rows t). sint (nid n) < max_rowid"
  proof
    fix n assume "n \<in> set (rows t)"
    then have "sint (nid n) \<noteq> max_rowid"
      using assms by (auto simp: ids_full_def list_ex_iff)
    then show "sint (nid n) < max_rowid"
      using sint_lt [of "nid n"] by (simp add: max_rowid_def)
  qed
  have lo: "- (2 ^ 63) \<le> sint (seq t) + 1"
    using sint_ge [of "seq t"] by simp
  have hi1: "sint (seq t) + 1 \<le> max_rowid" using seq by simp
  have hi2: "(case rows t of [] \<Rightarrow> 1
     | n # ns \<Rightarrow> fold max (map (\<lambda>m. sint (nid m)) ns) (sint (nid n)) + 1) \<le> max_rowid"
  proof (cases "rows t")
    case Nil
    then show ?thesis by (simp add: max_rowid_def)
  next
    case (Cons a ns)
    have "fold max (map (\<lambda>m. sint (nid m)) ns) (sint (nid a)) \<le> max_rowid - 1"
      using ids Cons by (intro fold_max_le) auto
    then show ?thesis using Cons by simp
  qed
  have "next_id t \<le> max_rowid"
    unfolding next_id_def using hi1 hi2 by simp
  moreover have "- (2 ^ 63) \<le> next_id t"
    unfolding next_id_def using lo by simp
  ultimately show ?thesis by (simp add: in_int64_def max_rowid_def)
qed

lemma filter_id_single:
  assumes "distinct (map nid xs)" and "n \<in> set xs"
  shows "filter (id_is (Some (sint (nid n)))) xs = [n]"
proof -
  have "id_is (Some (sint (nid n))) = (\<lambda>m. nid m = nid n)"
    by (rule ext) (simp add: id_is_sint)
  then show ?thesis using filter_key_single [OF assms] by simp
qed

lemma close_entry_closed:
  assumes "notices d = Some t" and "distinct (map nid (rows t))"
    and "n \<in> set (rows t)" and "closedate n = Some ts"
  shows "close_entry now d (Some (sint (nid n))) =
    (Inr (''Entry '' @ str_int (sint (nid n)) @ '' was already closed on '' @ ts), d)"
proof -
  have "filter (id_is (Some (sint (nid n)))) (rows t) = [n]"
    using assms(2,3) by (rule filter_id_single)
  then show ?thesis
    using assms(1,4)
    by (simp add: close_entry_def chk_def cursor_truth_def fetchone_def full_row_def
        sql_of_date_def entry_bindable_sint)
qed

lemma close_entry_after:
  assumes "notices d = Some t"
  shows "snd (close_entry now d entry) =
    (case filter (id_is entry) (rows t) of
       [] \<Rightarrow> d
     | r # rest \<Rightarrow>
         if closedate r \<noteq> None \<or> \<not> entry_bindable entry then d
         else d\<lparr>notices := Some (t\<lparr>rows :=
                map (\<lambda>n. if id_is entry n then n\<lparr>closedate := Some now\<rparr> else n)
                  (rows t)\<rparr>)\<rparr>)"
  using assms
  by (simp add: close_entry_def chk_def cursor_truth_def fetchone_def full_row_def
      sql_of_date_def set_closedate_def split: list.splits option.splits)

lemma close_entry_absent: "notices d = None \<Longrightarrow> snd (close_entry now d entry) = d"
  by (simp add: close_entry_def chk_def)

lemma notice_rows_migrate: "notice_rows (snd (migrate d)) = notice_rows d"
  by (simp add: migrate_def add_parent_col_def set_new_version_def notice_rows_def
      split: option.splits)

lemma check_schema_after:
  "snd (check_schema d) = mk_table d \<or> snd (check_schema d) = snd (migrate (mk_table d))"
proof -
  obtain r d2 where m: "migrate (mk_table d) = (r, d2)"
    by (cases "migrate (mk_table d)")
  show ?thesis
    by (cases r)
      (simp_all add: check_schema_def Let_def m split: sum.splits list.splits)
qed

lemma notice_rows_check_schema: "notice_rows (snd (check_schema d)) = notice_rows d"
proof -
  have m: "notice_rows (mk_table d) = notice_rows d"
    by (simp add: mk_table_def notice_rows_def split: option.splits)
  have "snd (check_schema d) = mk_table d \<or> snd (check_schema d) = snd (migrate (mk_table d))"
    by (rule check_schema_after)
  then show ?thesis
    using m notice_rows_migrate [of "mk_table d"] by auto
qed

lemma notice_rows_Model_init: "notice_rows (snd (Model_init d)) = notice_rows d"
proof -
  have "notice_rows (prep_table d) = notice_rows d"
    by (simp add: prep_table_def notice_rows_def split: option.splits)
  then show ?thesis
    by (simp add: Model_init_def notice_rows_check_schema)
qed

lemma unique_ids_notice_rows: "unique_ids d = distinct (map nid (notice_rows d))"
  by (simp add: unique_ids_def notice_rows_def split: option.splits)

lemma create_entry_rows:
  "notice_rows (snd (create_entry now d nm msg)) = notice_rows d \<or>
   (\<exists>t n m. notices d = Some t \<and> \<not> ids_full t \<and>
      notice_rows (snd (create_entry now d nm msg)) =
        rows t @ [\<lparr>nid = word_of_int (next_id t), name = n, message = m, postdate = now,
                   closedate = None\<rparr>])"
  by (simp add: create_entry_def stmt_def notice_rows_def split: option.splits)

lemma close_entry_rows:
  "notice_rows (snd (close_entry now d entry)) = notice_rows d \<or>
   (\<exists>r rest. filter (id_is entry) (notice_rows d) = r # rest \<and>
      closedate r = None \<and>
      notice_rows (snd (close_entry now d entry)) =
        map (\<lambda>n. if id_is entry n then n\<lparr>closedate := Some now\<rparr> else n) (notice_rows d))"
proof (cases "notices d")
  case None
  then show ?thesis by (simp add: close_entry_absent)
next
  case (Some t)
  then have nr: "notice_rows d = rows t" by (simp add: notice_rows_def)
  show ?thesis
    unfolding close_entry_after [OF Some] nr
    by (simp add: notice_rows_def Some split: list.splits)
qed

lemma after_rows:
  "notice_rows (after now c d) = notice_rows d \<or>
   (\<exists>i n m. (\<forall>r \<in> set (notice_rows d). nid r \<noteq> i) \<and>
      notice_rows (after now c d) =
        notice_rows d @ [\<lparr>nid = i, name = n, message = m, postdate = now, closedate = None\<rparr>]) \<or>
   (\<exists>entry r rest. filter (id_is entry) (notice_rows d) = r # rest \<and>
      closedate r = None \<and>
      notice_rows (after now c d) =
        map (\<lambda>n. if id_is entry n then n\<lparr>closedate := Some now\<rparr> else n) (notice_rows d))"
proof (cases c)
  case Init
  then show ?thesis by (simp add: notice_rows_Model_init)
next
  case CheckSchema
  then show ?thesis by (simp add: notice_rows_check_schema)
next
  case Migrate
  then show ?thesis by (simp add: notice_rows_migrate)
next
  case CountOpen
  then show ?thesis
    by (simp add: get_open_entry_count_def qry_def fetchone_def split: option.splits)
next
  case (ListOpen cnt offset width)
  then show ?thesis by (simp add: get_open_entries_frame)
next
  case (Create nm msg)
  from create_entry_rows [of now d nm msg] show ?thesis
  proof
    assume "notice_rows (snd (create_entry now d nm msg)) = notice_rows d"
    then show ?thesis using Create by simp
  next
    assume "\<exists>t n m. notices d = Some t \<and> \<not> ids_full t \<and>
      notice_rows (snd (create_entry now d nm msg)) =
        rows t @ [\<lparr>nid = word_of_int (next_id t), name = n, message = m, postdate = now,
                   closedate = None\<rparr>]"
    then obtain t n m where t: "notices d = Some t" and nf: "\<not> ids_full t"
      and eq: "notice_rows (snd (create_entry now d nm msg)) =
        rows t @ [\<lparr>nid = word_of_int (next_id t), name = n, message = m, postdate = now,
                   closedate = None\<rparr>]"
      by blast
    have nr: "notice_rows d = rows t" using t by (simp add: notice_rows_def)
    have wi: "sint (word_of_int (next_id t) :: 64 word) = next_id t"
      using next_id_in_range [OF nf] by (rule sint64_self)
    have "\<forall>r \<in> set (notice_rows d). nid r \<noteq> word_of_int (next_id t)"
    proof
      fix r assume "r \<in> set (notice_rows d)"
      then have "sint (nid r) < next_id t" using nr next_id_above by simp
      then show "nid r \<noteq> word_of_int (next_id t)" using wi by auto
    qed
    then show ?thesis using Create eq nr by auto
  qed
next
  case (Close entry)
  from close_entry_rows [of now d entry] show ?thesis
  proof
    assume "notice_rows (snd (close_entry now d entry)) = notice_rows d"
    then show ?thesis using Close by simp
  next
    assume "\<exists>r rest. filter (id_is entry) (notice_rows d) = r # rest \<and>
      closedate r = None \<and>
      notice_rows (snd (close_entry now d entry)) =
        map (\<lambda>n. if id_is entry n then n\<lparr>closedate := Some now\<rparr> else n) (notice_rows d)"
    then have "\<exists>e r rest. filter (id_is e) (notice_rows d) = r # rest \<and>
      closedate r = None \<and>
      notice_rows (after now c d) =
        map (\<lambda>n. if id_is e n then n\<lparr>closedate := Some now\<rparr> else n) (notice_rows d)"
      unfolding Close after.simps by (rule exI [of _ entry])
    then show ?thesis by (intro disjI2)
  qed
qed

lemma after_unique_ids:
  assumes "unique_ids d"
  shows "unique_ids (after now c d)"
proof -
  have dist: "distinct (map nid (notice_rows d))"
    using assms by (simp add: unique_ids_notice_rows)
  from after_rows [of now c d] show ?thesis
  proof (elim disjE exE conjE)
    assume "notice_rows (after now c d) = notice_rows d"
    then show ?thesis using dist by (simp add: unique_ids_notice_rows)
  next
    fix i n m
    assume above: "\<forall>r \<in> set (notice_rows d). nid r \<noteq> i"
      and eq: "notice_rows (after now c d) =
        notice_rows d @ [\<lparr>nid = i, name = n, message = m, postdate = now, closedate = None\<rparr>]"
    have "i \<notin> nid ` set (notice_rows d)" using above by auto
    then show ?thesis using dist eq by (simp add: unique_ids_notice_rows)
  next
    fix entry r rest
    assume eq: "notice_rows (after now c d) =
        map (\<lambda>n. if id_is entry n then n\<lparr>closedate := Some now\<rparr> else n) (notice_rows d)"
    have "map nid (notice_rows (after now c d)) = map nid (notice_rows d)"
      unfolding eq by (induction "notice_rows d") auto
    then show ?thesis using dist by (simp add: unique_ids_notice_rows)
  qed
qed

lemma after_keeps_closed:
  assumes "unique_ids d" and "n \<in> set (notice_rows d)" and "closedate n \<noteq> None"
  shows "n \<in> set (notice_rows (after now c d))"
proof -
  have dist: "distinct (map nid (notice_rows d))"
    using assms(1) by (simp add: unique_ids_notice_rows)
  from after_rows [of now c d] show ?thesis
  proof (elim disjE exE conjE)
    assume "notice_rows (after now c d) = notice_rows d"
    then show ?thesis using assms(2) by simp
  next
    fix i n' m
    assume "notice_rows (after now c d) =
        notice_rows d @ [\<lparr>nid = i, name = n', message = m, postdate = now, closedate = None\<rparr>]"
    then show ?thesis using assms(2) by simp
  next
    fix entry r rest
    assume hd: "filter (id_is entry) (notice_rows d) = r # rest"
      and op: "closedate r = None"
      and eq: "notice_rows (after now c d) =
        map (\<lambda>n. if id_is entry n then n\<lparr>closedate := Some now\<rparr> else n) (notice_rows d)"
    have "r \<in> set (filter (id_is entry) (notice_rows d))"
      unfolding hd by simp
    then have r: "r \<in> set (notice_rows d) \<and> id_is entry r"
      by simp
    have "\<not> id_is entry n"
    proof
      assume "id_is entry n"
      then have "sint (nid n) = sint (nid r)" using r by (auto simp: id_is_def)
      then have "nid n = nid r" by (simp add: sint_eq_iff)
      then have "n = r"
        using dist assms(2) r by (metis distinct_map inj_on_def)
      then show False using op assms(3) by simp
    qed
    then have fix_n: "(\<lambda>n. if id_is entry n then n\<lparr>closedate := Some now\<rparr> else n) n = n"
      by simp
    have "(\<lambda>n. if id_is entry n then n\<lparr>closedate := Some now\<rparr> else n) n
          \<in> set (map (\<lambda>n. if id_is entry n then n\<lparr>closedate := Some now\<rparr> else n)
                 (notice_rows d))"
      using assms(2) by (simp only: set_map) (rule imageI)
    then show ?thesis
      unfolding eq using fix_n by simp
  qed
qed

lemma run_unique_ids: "unique_ids d \<Longrightarrow> unique_ids (run tcs d)"
  by (induction tcs arbitrary: d) (simp_all add: after_unique_ids)

lemma run_keeps_closed:
  "unique_ids d \<Longrightarrow> n \<in> set (notice_rows d) \<Longrightarrow> closedate n \<noteq> None \<Longrightarrow>
   n \<in> set (notice_rows (run tcs d))"
proof (induction tcs arbitrary: d)
  case Nil
  then show ?case by simp
next
  case (Cons tc tcs)
  have "unique_ids (after (fst tc) (snd tc) d)"
    using Cons.prems(1) by (rule after_unique_ids)
  moreover have "n \<in> set (notice_rows (after (fst tc) (snd tc) d))"
    using Cons.prems by (rule after_keeps_closed)
  ultimately show ?case
    using Cons.IH Cons.prems(3) by simp
qed

lemma filter_schema_none:
  assumes "filter (\<lambda>cv. fst cv = ''schema'') vs = []"
  shows "filter (\<lambda>cv. fst cv \<noteq> ''schema'') vs = vs"
proof -
  have "\<forall>cv \<in> set vs. fst cv \<noteq> ''schema''"
    using assms by (simp add: filter_empty_conv)
  then show ?thesis by (simp add: filter_id_conv)
qed

lemma check_schema_present:
  assumes "notices d = Some t" and "versions d = Some vs"
  shows "check_schema d =
    (Inr (),
     if filter (\<lambda>cv. fst cv = ''schema'') vs = [] \<and> \<not> parent_col t
     then d\<lparr>notices := Some (t\<lparr>parent_col := True\<rparr>), versions := Some (vs @ [(''schema'', 1)])\<rparr>
     else d)"
proof (cases "filter (\<lambda>cv. fst cv = ''schema'') vs")
  case Nil
  have keep: "filter (\<lambda>cv. fst cv \<noteq> ''schema'') vs = vs"
    using Nil by (rule filter_schema_none)
  have mk: "mk_table d = d" using assms(2) by (simp add: mk_table_def)
  show ?thesis
    using assms Nil keep
    by (simp add: check_schema_def mk chk_version_def fetchall_def migrate_def
        add_parent_col_def set_new_version_def)
next
  case (Cons x xs)
  have mk: "mk_table d = d" using assms(2) by (simp add: mk_table_def)
  show ?thesis
    using assms Cons
    by (simp add: check_schema_def mk chk_version_def fetchall_def py2_tuple_lt_int_def)
qed

lemma tables_after_create:
  "\<exists>t vs. notices (mk_table (prep_table d)) = Some t \<and> versions (mk_table (prep_table d)) = Some vs
     \<and> rows t = notice_rows d \<and> vs = version_rows d"
  by (simp add: mk_table_def prep_table_def notice_rows_def version_rows_def split: option.splits)

lemma check_schema_mk_table: "check_schema (mk_table d) = check_schema d"
proof -
  have "mk_table (mk_table d) = mk_table d"
    by (simp add: mk_table_def split: option.splits)
  then show ?thesis by (simp add: check_schema_def)
qed

lemma Model_init_eq: "Model_init d = check_schema (mk_table (prep_table d))"
  by (simp add: Model_init_def check_schema_mk_table)

lemma close_entry_no_row:
  assumes "notices d = Some t" and "entry_bindable entry"
    and "\<forall>n \<in> set (rows t). \<not> id_is entry n"
  shows "close_entry now d entry = (Inl TypeError, d)"
proof -
  have "filter (id_is entry) (rows t) = []"
    using assms(3) by (simp add: filter_empty_conv)
  then show ?thesis
    using assms(1,2) by (simp add: close_entry_def chk_def cursor_truth_def fetchone_def)
qed

text \<open>
  Claim C1, on the code. \<^verbatim>\<open>close_entry\<close> with an id that no stored notice has: on a store
  without notices, \<^verbatim>\<open>close_entry(42)\<close> raises \<^verbatim>\<open>TypeError\<close> and leaves the store as it
  was. The answer \<^verbatim>\<open>'Bad entry: Cannot close'\<close> is never given: the test \<^verbatim>\<open>if row:\<close> is
  made on the cursor, which is always true (lemma \<open>close_entry_no_row\<close> has the same
  for every store and every id that can be bound and has no notice).
\<close>

theorem close_entry_missing_id:
  "close_entry ''2024-02-01 12:00:00'' fresh_store (Some 42) = (Inl TypeError, fresh_store)"
  by (simp add: close_entry_def chk_def cursor_truth_def fetchone_def fresh_store_def
      entry_bindable_def in_int64_def)

text \<open>
  Claim C5, on the code. A file whose version row for \<^verbatim>\<open>'schema'\<close> holds 0, less than
  \<open>schema_version\<close>: \<^verbatim>\<open>check_schema\<close> runs no migration (column \<^verbatim>\<open>parent_id\<close> is not
  added, the version stays 0), because \<^verbatim>\<open>ver[0] < Model.schema_version\<close> compares the row,
  a tuple, with an integer.
\<close>

theorem check_schema_stale_version:
  "0 < schema_version \<and> check_schema stale_store = (Inr (), stale_store)"
  by (simp add: schema_version_def check_schema_def mk_table_def chk_version_def fetchall_def
      py2_tuple_lt_int_def stale_store_def)

lemma main_unknown:
  assumes "cls cmd = None"
  shows "main cls (cmd # line) = Uncaught ValueError"
  using assms by (simp add: main_def Command_call_def)

text \<open>
  Claim C9, on the code. With the first argument \<^verbatim>\<open>frobnicate\<close>, which is no attribute of
  \<^verbatim>\<open>Command\<close>, \<^verbatim>\<open>Command.call\<close> returns the string \<^verbatim>\<open>'Unknown command'\<close>; unpacking it
  into \<^verbatim>\<open>exitval, msg\<close> raises \<^verbatim>\<open>ValueError\<close>, which nobody catches: the message is not
  printed and \<^verbatim>\<open>sys.exit\<close> is not reached.
\<close>

theorem main_unknown_command:
  "main (Command_attrs ev (other(''frobnicate'' := None))) (''frobnicate'' # line) = Uncaught ValueError"
  by (simp add: main_def Command_call_def Command_attrs_def)

lemma Model_init_present:
  assumes "notices d = Some t" and "versions d = Some vs"
  shows "Model_init d = check_schema d"
  using assms by (simp add: Model_init_def prep_table_def)

lemma Model_init_result:
  "\<exists>t vs. Model_init d = (Inr (), \<lparr>notices = Some t, versions = Some vs\<rparr>) \<and>
     rows t = notice_rows d \<and>
     (vs = version_rows d \<or> vs = version_rows d @ [(''schema'', 1)]) \<and>
     (filter (\<lambda>cv. fst cv = ''schema'') vs = [] \<longrightarrow> parent_col t) \<and>
     (filter (\<lambda>cv. fst cv = ''schema'') vs = [] \<longrightarrow> vs = version_rows d)"
proof -
  obtain t vs where t: "notices (mk_table (prep_table d)) = Some t"
    and vs: "versions (mk_table (prep_table d)) = Some vs"
    and r: "rows t = notice_rows d" and v: "vs = version_rows d"
    using tables_after_create [of d] by blast
  have eq: "mk_table (prep_table d) = \<lparr>notices = Some t, versions = Some vs\<rparr>"
    using t vs by (cases "mk_table (prep_table d)") simp
  show ?thesis
  proof (cases "filter (\<lambda>cv. fst cv = ''schema'') vs = [] \<and> \<not> parent_col t")
    case True
    have "Model_init d =
      (Inr (), (mk_table (prep_table d))\<lparr>notices := Some (t\<lparr>parent_col := True\<rparr>),
         versions := Some (vs @ [(''schema'', 1)])\<rparr>)"
      using True by (simp add: Model_init_eq check_schema_present [OF t vs])
    then have "Model_init d =
      (Inr (), \<lparr>notices = Some (t\<lparr>parent_col := True\<rparr>), versions = Some (vs @ [(''schema'', 1)])\<rparr>)"
      by (simp add: eq)
    then show ?thesis using r v by simp
  next
    case False
    have "Model_init d = (Inr (), mk_table (prep_table d))"
      using False by (auto simp add: Model_init_eq check_schema_present [OF t vs])
    then have "Model_init d = (Inr (), \<lparr>notices = Some t, versions = Some vs\<rparr>)"
      by (simp add: eq)
    then show ?thesis using r v False by auto
  qed
qed

lemma Model_init_again:
  assumes "Model_init d = (Inr (), d1)"
  shows "Model_init d1 = (Inr (), d1)"
proof -
  obtain t vs where m: "Model_init d = (Inr (), \<lparr>notices = Some t, versions = Some vs\<rparr>)"
    and p: "filter (\<lambda>cv. fst cv = ''schema'') vs = [] \<longrightarrow> parent_col t"
    using Model_init_result [of d] by blast
  have d1: "d1 = \<lparr>notices = Some t, versions = Some vs\<rparr>"
    using assms m by simp
  have "Model_init d1 = check_schema d1"
    by (rule Model_init_present [of _ t vs]) (simp_all add: d1)
  also have "\<dots> = (Inr (), d1)"
    using p check_schema_present [of d1 t vs] by (simp add: d1)
  finally show ?thesis .
qed

text \<open>
  Claim C8. \<^verbatim>\<open>Model.__init__\<close> on any database file returns normally, and a second
  initialisation on the file it leaves returns the same and leaves the same file: both
  tables exist (once each), with the same columns, notices and version rows. The first
  initialisation keeps the notices it finds, and keeps the version rows it finds, adding
  at most the row (\<^verbatim>\<open>'schema'\<close>, 1).
\<close>

theorem Model_init_idempotent:
  "fst (Model_init d) = Inr () \<and>
   Model_init (snd (Model_init d)) = Model_init d \<and>
   notices (snd (Model_init d)) \<noteq> None \<and>
   versions (snd (Model_init d)) \<noteq> None \<and>
   notice_rows (snd (Model_init d)) = notice_rows d \<and>
   (version_rows (snd (Model_init d)) = version_rows d \<or>
    version_rows (snd (Model_init d)) = version_rows d @ [(''schema'', 1)]) \<and>
   notice_rows (snd (Model_init (snd (Model_init d)))) = notice_rows (snd (Model_init d)) \<and>
   version_rows (snd (Model_init (snd (Model_init d)))) = version_rows (snd (Model_init d))"
proof -
  obtain t vs where m: "Model_init d = (Inr (), \<lparr>notices = Some t, versions = Some vs\<rparr>)"
    and r: "rows t = notice_rows d"
    and v: "vs = version_rows d \<or> vs = version_rows d @ [(''schema'', 1)]"
    using Model_init_result [of d] by blast
  have again: "Model_init (snd (Model_init d)) = Model_init d"
    using Model_init_again [OF m] m by simp
  show ?thesis
    using m r v again by (simp add: notice_rows_def version_rows_def)
qed

text \<open>
  The empty file becomes the fresh store; the fresh store and the sample store stay as
  they are.
\<close>

theorem Model_init_idempotent_witness:
  "Model_init empty_file = (Inr (), fresh_store) \<and>
   Model_init fresh_store = (Inr (), fresh_store) \<and>
   Model_init sample_store = (Inr (), sample_store) \<and>
   notice_rows (snd (Model_init sample_store)) = sample_rows"
proof -
  have a: "Model_init empty_file = (Inr (), fresh_store)"
    by (simp add: Model_init_def check_schema_def prep_table_def mk_table_def chk_version_def
        fetchall_def migrate_def add_parent_col_def set_new_version_def empty_file_def
        fresh_store_def)
  have b: "notice_rows sample_store = sample_rows"
    by (simp add: notice_rows_def sample_store_def)
  have c: "Model_init sample_store = (Inr (), sample_store)"
    by (simp add: Model_init_def check_schema_def prep_table_def mk_table_def chk_version_def
        fetchall_def py2_tuple_lt_int_def sample_store_def)
  show ?thesis
    using Model_init_idempotent [of empty_file] Model_init_idempotent [of sample_store] a b c
    by simp
qed

lemma migrate_never_raises: "\<exists>b. fst (migrate d) = Inr b"
  by (auto simp: migrate_def add_parent_col_def set_new_version_def split: option.splits)

text \<open>
  Claim C6, amended. \<^verbatim>\<open>migrate\<close> never raises. When its \<^verbatim>\<open>ALTER\<close> fails it returns
  \<^verbatim>\<open>False\<close> and the database is unchanged; when its \<^verbatim>\<open>INSERT OR REPLACE\<close> fails it returns
  \<^verbatim>\<open>False\<close> and table \<^verbatim>\<open>versions\<close> is unchanged; so whenever it returns \<^verbatim>\<open>False\<close> no
  version is recorded. \<^verbatim>\<open>check_schema\<close> and \<^verbatim>\<open>Model.__init__\<close> never raise and return
  \<^verbatim>\<open>None\<close>; when the migration of the initialisation fails, the initialisation still
  returns normally, with the database as the two \<^verbatim>\<open>CREATE TABLE IF NOT EXISTS\<close> left
  it.
\<close>

theorem migrate_failure_contained:
  "(\<exists>b. fst (migrate d) = Inr b) \<and>
   (\<forall>e. add_parent_col d = Inl e \<longrightarrow> migrate d = (Inr False, d)) \<and>
   (\<forall>d1 e. add_parent_col d = Inr d1 \<and> set_new_version d1 = Inl e \<longrightarrow>
      migrate d = (Inr False, d1) \<and> versions d1 = versions d) \<and>
   (fst (migrate d) = Inr False \<longrightarrow> versions (snd (migrate d)) = versions d) \<and>
   fst (check_schema d) = Inr () \<and>
   fst (Model_init d) = Inr () \<and>
   (fst (migrate (mk_table (prep_table d))) = Inr False \<longrightarrow>
      Model_init d = (Inr (), mk_table (prep_table d)))"
proof -
  have 1: "\<exists>b. fst (migrate d) = Inr b" by (rule migrate_never_raises)
  have 2: "\<forall>e. add_parent_col d = Inl e \<longrightarrow> migrate d = (Inr False, d)"
    by (auto simp: migrate_def add_parent_col_def split: option.splits if_splits)
  have 3: "\<forall>d1 e. add_parent_col d = Inr d1 \<and> set_new_version d1 = Inl e \<longrightarrow>
      migrate d = (Inr False, d1) \<and> versions d1 = versions d"
    by (auto simp: migrate_def add_parent_col_def set_new_version_def
        split: option.splits if_splits)
  have 4: "fst (migrate d) = Inr False \<longrightarrow> versions (snd (migrate d)) = versions d"
    by (auto simp: migrate_def add_parent_col_def set_new_version_def
        split: option.splits if_splits)
  have 5: "fst (check_schema d) = Inr ()"
  proof -
    obtain t vs where "notices (mk_table (prep_table (mk_table d))) = Some t"
      and "versions (mk_table (prep_table (mk_table d))) = Some vs"
      using tables_after_create [of "mk_table d"] by blast
    obtain b d2 where m: "migrate (mk_table d) = (Inr b, d2)"
      using migrate_never_raises [of "mk_table d"] by (cases "migrate (mk_table d)") auto
    have "\<exists>c. chk_version (mk_table d) = Inr c"
      by (simp add: chk_version_def mk_table_def split: option.splits)
    then obtain c where c: "chk_version (mk_table d) = Inr c" by blast
    show ?thesis
      by (simp add: check_schema_def Let_def c m py2_tuple_lt_int_def split: list.splits)
  qed
  have 6: "fst (Model_init d) = Inr ()"
    using Model_init_result [of d] by auto
  have 7: "fst (migrate (mk_table (prep_table d))) = Inr False \<longrightarrow>
      Model_init d = (Inr (), mk_table (prep_table d))"
  proof
    assume f: "fst (migrate (mk_table (prep_table d))) = Inr False"
    obtain t vs where t: "notices (mk_table (prep_table d)) = Some t"
      and vs: "versions (mk_table (prep_table d)) = Some vs"
      using tables_after_create [of d] by blast
    have "parent_col t"
      using f t vs
      by (auto simp: migrate_def add_parent_col_def set_new_version_def split: if_splits)
    then show "Model_init d = (Inr (), mk_table (prep_table d))"
      by (simp add: Model_init_eq check_schema_present [OF t vs])
  qed
  show ?thesis using 1 2 3 4 5 6 7 by blast
qed

text \<open>
  The file with column \<^verbatim>\<open>parent_id\<close> and no version row: the \<^verbatim>\<open>ALTER\<close> fails.
\<close>

theorem migrate_failure_contained_witness:
  "add_parent_col unversioned_store = Inl OperationalError \<and>
   migrate unversioned_store = (Inr False, unversioned_store) \<and>
   fst (check_schema unversioned_store) = Inr () \<and>
   Model_init unversioned_store = (Inr (), unversioned_store)"
proof -
  have a: "add_parent_col unversioned_store = Inl OperationalError"
    by (simp add: add_parent_col_def unversioned_store_def)
  have t: "mk_table (prep_table unversioned_store) = unversioned_store"
    by (simp add: mk_table_def prep_table_def unversioned_store_def)
  have m: "fst (migrate unversioned_store) = Inr False"
    by (simp add: migrate_def add_parent_col_def unversioned_store_def)
  show ?thesis
    using migrate_failure_contained [of unversioned_store] a t m by simp
qed

text \<open>
  Claim C6, as stated, fails on the code. On a file that has column \<^verbatim>\<open>parent_id\<close> but no
  version row the migration fails (\<^verbatim>\<open>migrate\<close> returns \<^verbatim>\<open>False\<close>), and \<^verbatim>\<open>check_schema\<close> and
  \<^verbatim>\<open>Model.__init__\<close> return \<^verbatim>\<open>None\<close>, as they do on an empty file, where the migration
  succeeds: no value tells the caller of the initialisation about the failure.
\<close>

theorem migrate_failure_unreported:
  "migrate unversioned_store = (Inr False, unversioned_store) \<and>
   check_schema unversioned_store = (Inr (), unversioned_store) \<and>
   Model_init unversioned_store = (Inr (), unversioned_store) \<and>
   fst (migrate (mk_table (prep_table empty_file))) = Inr True \<and>
   fst (Model_init empty_file) = Inr ()"
  by (simp add: Model_init_def check_schema_def prep_table_def mk_table_def chk_version_def
      fetchall_def migrate_def add_parent_col_def set_new_version_def empty_file_def
      unversioned_store_def)

text \<open>
  Claim C2. Let \<open>n\<close> be a stored notice whose \<^verbatim>\<open>closedate\<close> is set to \<open>ts\<close>, in a store
  whose ids are unique. Then \<^verbatim>\<open>close_entry\<close> on its id returns the "already closed"
  message, which carries \<open>ts\<close>, and leaves the store unchanged; and after any run of
  calls of the methods of \<^verbatim>\<open>Model\<close> (initialisation, schema check, migration, counting,
  listing, creating, closing, in any order and with any arguments) \<open>n\<close> is still stored
  as it was, and the notice of its id still has \<^verbatim>\<open>closedate\<close> \<open>ts\<close>: no call reopens
  it or overwrites its close date.
\<close>

theorem closedate_set_once:
  assumes "unique_ids d" and "n \<in> set (notice_rows d)" and "closedate n = Some ts"
  shows "close_entry now d (Some (sint (nid n))) =
           (Inr (''Entry '' @ str_int (sint (nid n)) @ '' was already closed on '' @ ts), d) \<and>
         n \<in> set (notice_rows (run tcs d)) \<and>
         (\<forall>m \<in> set (notice_rows (run tcs d)). nid m = nid n \<longrightarrow> closedate m = Some ts)"
proof -
  obtain t where t: "notices d = Some t"
    using assms(2) by (cases "notices d") (simp_all add: notice_rows_def)
  have nr: "notice_rows d = rows t" using t by (simp add: notice_rows_def)
  have dist: "distinct (map nid (rows t))"
    using assms(1) t by (simp add: unique_ids_def)
  have mem: "n \<in> set (rows t)" using assms(2) nr by simp
  have 1: "close_entry now d (Some (sint (nid n))) =
           (Inr (''Entry '' @ str_int (sint (nid n)) @ '' was already closed on '' @ ts), d)"
    using t dist mem assms(3) by (rule close_entry_closed)
  have closed: "closedate n \<noteq> None" using assms(3) by simp
  have 2: "n \<in> set (notice_rows (run tcs d))"
    using assms(1,2) closed by (rule run_keeps_closed)
  have u: "distinct (map nid (notice_rows (run tcs d)))"
    using run_unique_ids [OF assms(1), of tcs] by (simp add: unique_ids_notice_rows)
  have 3: "\<forall>m \<in> set (notice_rows (run tcs d)). nid m = nid n \<longrightarrow> closedate m = Some ts"
  proof (intro ballI impI)
    fix m
    assume "m \<in> set (notice_rows (run tcs d))" and "nid m = nid n"
    then have "m = n"
      using u 2 by (metis distinct_map inj_on_def)
    then show "closedate m = Some ts" using assms(3) by simp
  qed
  show ?thesis using 1 2 3 by blast
qed

text \<open>
  The sample store, its closed notice 2, and a run that closes it again, creates a
  notice, closes notice 3, lists and initialises.
\<close>

theorem closedate_set_once_witness:
  "unique_ids sample_store \<and>
   closed_sample \<in> set (notice_rows sample_store) \<and>
   close_entry ''2024-02-01 12:00:00'' sample_store (Some 2) =
     (Inr ''Entry 2 was already closed on 2024-01-02 09:30:00'', sample_store) \<and>
   closed_sample \<in> set (notice_rows (run sample_run sample_store))"
proof -
  have u: "unique_ids sample_store"
    by (simp add: unique_ids_def sample_store_def sample_rows_def)
  have m: "closed_sample \<in> set (notice_rows sample_store)"
    by (simp add: notice_rows_def sample_store_def sample_rows_def closed_sample_def)
  have c: "closedate closed_sample = Some ''2024-01-02 09:30:00''"
    by (simp add: closed_sample_def)
  have i: "sint (nid closed_sample) = 2" by (simp add: closed_sample_def)
  have s: "str_int 2 = ''2''" by (simp add: str_int_def)
  show ?thesis
    using closedate_set_once [OF u m c, of "''2024-02-01 12:00:00''" sample_run] u m
    by (simp add: i s)
qed

text \<open>
  Claim C3, as stated, fails on the code: on the sample store, \<open>count = 4\<close> and
  \<open>offset = 2 ^ 62\<close> give \<open>offset * count = 2 ^ 64\<close>, which \<^verbatim>\<open>sqlite3\<close> cannot bind, and
  \<^verbatim>\<open>get_open_entries\<close> raises \<^verbatim>\<open>OverflowError\<close> in place of rows and a page count.
\<close>

theorem get_open_entries_page_overflow:
  "notices sample_store = Some sample_table \<and> (1::int) \<le> 4 \<and> (0::int) \<le> 2 ^ 62 \<and>
   get_open_entries sample_store 4 (2 ^ 62) 72 = (Inl OverflowError, sample_store)"
  by (simp add: get_open_entries_def get_entries_def in_int64_def sample_store_def
      sample_table_def)

text \<open>
  Claim C3, amended. On a store with table \<^verbatim>\<open>notices\<close>, for \<open>count \<ge> 1\<close> and \<open>offset \<ge> 0\<close>.
  When \<open>width\<close>, \<open>count\<close> and \<open>offset * count\<close> are within the signed 64-bit range: let
  \<open>opened\<close> be the open notices (the stored notices with \<^verbatim>\<open>closedate\<close> null, as many
  as the store holds) ordered by id descending. \<^verbatim>\<open>get_open_entries\<close> returns the rows of
  \<open>take count (drop (offset * count) opened)\<close>: at most \<open>count\<close> notices, all open, by id
  descending, after skipping the first \<open>offset * count\<close> open notices; the page count is
  \<^verbatim>\<open>get_open_entry_count()\<close> divided by \<open>count\<close>, rounded down; the store is unchanged.
  With \<open>count = 1\<close> the page count is the number of open notices and page \<open>offset\<close> is
  the one notice at position \<open>offset\<close> of \<open>opened\<close> (with three open notices: page count
  3, and offset 2 gives the third-newest). When one of the three is outside the range,
  \<^verbatim>\<open>get_open_entries\<close> raises \<^verbatim>\<open>OverflowError\<close> and the store is unchanged.
\<close>

theorem get_open_entries_page:
  assumes "notices d = Some t" and "1 \<le> cnt" and "0 \<le> offset"
  shows "(in_int64 width \<and> in_int64 cnt \<and> in_int64 (offset * cnt) \<longrightarrow>
     (\<exists>opened ns.
       sorted_wrt (\<lambda>a b. sint (nid b) \<le> sint (nid a)) opened \<and>
       set opened = {n \<in> set (rows t). closedate n = None} \<and>
       length opened = length (filter (\<lambda>n. closedate n = None) (rows t)) \<and>
       get_open_entry_count d = (Inr (int (length opened)), d) \<and>
       ns = take (nat cnt) (drop (nat (offset * cnt)) opened) \<and>
       get_open_entries d cnt offset width =
         (Inr (map (listing_row width) ns, int (length opened) div cnt), d) \<and>
       int (length ns) \<le> cnt \<and>
       set ns \<subseteq> {n \<in> set (rows t). closedate n = None} \<and>
       sorted_wrt (\<lambda>a b. sint (nid b) \<le> sint (nid a)) ns \<and>
       (cnt = 1 \<and> nat offset < length opened \<longrightarrow>
          get_open_entries d cnt offset width =
            (Inr ([listing_row width (opened ! nat offset)], int (length opened)), d)))) \<and>
   (\<not> (in_int64 width \<and> in_int64 cnt \<and> in_int64 (offset * cnt)) \<longrightarrow>
      get_open_entries d cnt offset width = (Inl OverflowError, d))"
proof (intro conjI impI)
  assume r: "in_int64 width \<and> in_int64 cnt \<and> in_int64 (offset * cnt)"
  define opened where "opened = order_by_id_desc (filter is_open (rows t))"
  define ns where "ns = take (nat cnt) (drop (nat (offset * cnt)) opened)"
  have op: "is_open = (\<lambda>n. closedate n = None)"
    by (rule ext) (simp add: is_open_def)
  have 1: "sorted_wrt (\<lambda>a b. sint (nid b) \<le> sint (nid a)) opened"
    unfolding opened_def by (rule order_by_id_desc_sorted)
  have 2: "set opened = {n \<in> set (rows t). closedate n = None}"
    unfolding opened_def by (auto simp: order_by_id_desc_set is_open_def)
  have 3: "length opened = length (filter (\<lambda>n. closedate n = None) (rows t))"
    unfolding opened_def by (simp add: order_by_id_desc_length op)
  have len: "length opened = length (filter is_open (rows t))"
    unfolding opened_def by (simp add: order_by_id_desc_length)
  have 4: "get_open_entry_count d = (Inr (int (length opened)), d)"
    using get_open_entry_count_present [OF assms(1)] len by simp
  have off: "0 \<le> offset * cnt" using assms(2,3) by simp
  have lim: "sql_limit cnt (offset * cnt) opened = ns"
    unfolding ns_def using assms(2) off by (simp add: sql_limit_nonneg)
  have nz: "cnt \<noteq> 0" using assms(2) by simp
  have 6: "get_open_entries d cnt offset width =
       (Inr (map (listing_row width) ns, int (length opened) div cnt), d)"
    using get_open_entries_present [OF assms(1) nz, of width offset] r lim len
    by (simp add: opened_def)
  have 7: "int (length ns) \<le> cnt"
    unfolding ns_def using assms(2) by simp
  have 8: "set ns \<subseteq> {n \<in> set (rows t). closedate n = None}"
  proof -
    have "set ns \<subseteq> set opened"
      unfolding ns_def by (meson set_take_subset set_drop_subset subset_trans)
    then show ?thesis using 2 by simp
  qed
  have 9: "sorted_wrt (\<lambda>a b. sint (nid b) \<le> sint (nid a)) ns"
    unfolding ns_def using 1 by (simp add: sorted_wrt_take sorted_wrt_drop)
  have 10: "cnt = 1 \<and> nat offset < length opened \<longrightarrow>
        get_open_entries d cnt offset width =
          (Inr ([listing_row width (opened ! nat offset)], int (length opened)), d)"
  proof
    assume a: "cnt = 1 \<and> nat offset < length opened"
    then have "drop (nat offset) opened = opened ! nat offset # drop (Suc (nat offset)) opened"
      by (simp add: Cons_nth_drop_Suc)
    then have "ns = [opened ! nat offset]"
      unfolding ns_def using a by simp
    then show "get_open_entries d cnt offset width =
          (Inr ([listing_row width (opened ! nat offset)], int (length opened)), d)"
      using 6 a by simp
  qed
  show "\<exists>opened ns.
       sorted_wrt (\<lambda>a b. sint (nid b) \<le> sint (nid a)) opened \<and>
       set opened = {n \<in> set (rows t). closedate n = None} \<and>
       length opened = length (filter (\<lambda>n. closedate n = None) (rows t)) \<and>
       get_open_entry_count d = (Inr (int (length opened)), d) \<and>
       ns = take (nat cnt) (drop (nat (offset * cnt)) opened) \<and>
       get_open_entries d cnt offset width =
         (Inr (map (listing_row width) ns, int (length opened) div cnt), d) \<and>
       int (length ns) \<le> cnt \<and>
       set ns \<subseteq> {n \<in> set (rows t). closedate n = None} \<and>
       sorted_wrt (\<lambda>a b. sint (nid b) \<le> sint (nid a)) ns \<and>
       (cnt = 1 \<and> nat offset < length opened \<longrightarrow>
          get_open_entries d cnt offset width =
            (Inr ([listing_row width (opened ! nat offset)], int (length opened)), d))"
    using 1 2 3 4 6 7 8 9 10 ns_def by blast
next
  assume "\<not> (in_int64 width \<and> in_int64 cnt \<and> in_int64 (offset * cnt))"
  then show "get_open_entries d cnt offset width = (Inl OverflowError, d)"
    using assms(1) by (rule get_open_entries_overflow [rotated])
qed

lemma notices_sample_store: "notices sample_store = Some sample_table"
  by (simp add: sample_store_def sample_table_def)

lemma listing_sample_first:
  "get_open_entries sample_store 1 0 72 =
     (Inr ([[SInt 4, SText ''Dan'', SText ''2024-01-04 08:00:00'', SText (replicate 72 CHR ''x'')]], 3),
      sample_store)"
  by (simp add: get_open_entries_def get_entries_def get_open_entry_count_def qry_def
      fetchone_def fetchall_def py2_div_def sql_limit_def order_by_id_desc_def is_open_def
      listing_row_def sql_substr1_def NUL_def in_int64_def sample_store_def sample_rows_def)

text \<open>
  The sample store has three open notices (4, 3, 1 from the newest): with \<open>count = 1\<close>,
  offset 0 gives notice 4 and page count 3, offset 2 gives notice 1, and offset
  \<open>2 ^ 63\<close> raises \<^verbatim>\<open>OverflowError\<close>.
\<close>

theorem get_open_entries_page_witness:
  "notices sample_store = Some sample_table \<and>
   in_int64 72 \<and> in_int64 1 \<and> in_int64 (2 * 1) \<and>
   get_open_entries sample_store 1 0 72 =
     (Inr ([[SInt 4, SText ''Dan'', SText ''2024-01-04 08:00:00'', SText (replicate 72 CHR ''x'')]], 3),
      sample_store) \<and>
   get_open_entries sample_store 1 2 72 =
     (Inr ([[SInt 1, SText ''Alice'', SText ''2024-01-01 10:00:00'', SText ''Hello'']], 3),
      sample_store) \<and>
   get_open_entries sample_store 1 (2 ^ 63) 72 = (Inl OverflowError, sample_store)"
proof -
  have le: "(1::int) \<le> 1" and z: "(0::int) \<le> 0" and two: "(0::int) \<le> 2"
    and big: "(0::int) \<le> 2 ^ 63" by simp_all
  have r: "in_int64 72 \<and> in_int64 1 \<and> in_int64 (2 * 1)" by (simp add: in_int64_def)
  have b: "get_open_entries sample_store 1 2 72 =
     (Inr ([[SInt 1, SText ''Alice'', SText ''2024-01-01 10:00:00'', SText ''Hello'']], 3),
      sample_store)"
    using get_open_entries_page [OF notices_sample_store le two, of 72]
    by (simp add: get_open_entries_def get_entries_def get_open_entry_count_def qry_def
        fetchone_def fetchall_def py2_div_def sql_limit_def order_by_id_desc_def is_open_def
        listing_row_def sql_substr1_def NUL_def in_int64_def sample_store_def sample_rows_def)
  have c: "get_open_entries sample_store 1 (2 ^ 63) 72 = (Inl OverflowError, sample_store)"
    using get_open_entries_page [OF notices_sample_store le big, of 72]
    by (simp add: in_int64_def)
  show ?thesis using notices_sample_store r listing_sample_first b c by simp
qed





text \<open>
  Claim C10, as stated, fails on the code: with \<open>count = 0\<close> and \<open>width = 2 ^ 63\<close>, which
  \<^verbatim>\<open>sqlite3\<close> cannot bind, \<^verbatim>\<open>get_open_entries\<close> raises \<^verbatim>\<open>OverflowError\<close> when it executes the
  query, before the division.
\<close>

theorem get_open_entries_zero_count_overflow:
  "notices sample_store = Some sample_table \<and>
   get_open_entries sample_store 0 0 (2 ^ 63) = (Inl OverflowError, sample_store)"
  by (simp add: get_open_entries_def get_entries_def in_int64_def sample_store_def
      sample_table_def)

text \<open>
  Claim C10, amended. On a store with table \<^verbatim>\<open>notices\<close>, \<^verbatim>\<open>get_open_entries\<close> with
  \<open>count = 0\<close> never returns a result: it raises \<^verbatim>\<open>ZeroDivisionError\<close> when \<open>width\<close> is
  within the signed 64-bit range, and \<^verbatim>\<open>OverflowError\<close>, from the query, when it is not.
  With \<open>count \<ge> 1\<close> it never raises \<^verbatim>\<open>ZeroDivisionError\<close>, and it returns rows and a page
  count when \<open>width\<close>, \<open>count\<close> and \<open>offset * count\<close> are within that range.
\<close>

theorem get_open_entries_zero_count:
  assumes "notices d = Some t"
  shows "(in_int64 width \<longrightarrow>
            get_open_entries d 0 offset width = (Inl ZeroDivisionError, d)) \<and>
         (\<not> in_int64 width \<longrightarrow>
            get_open_entries d 0 offset width = (Inl OverflowError, d)) \<and>
         (1 \<le> cnt \<longrightarrow> fst (get_open_entries d cnt offset width) \<noteq> Inl ZeroDivisionError) \<and>
         (1 \<le> cnt \<and> in_int64 width \<and> in_int64 cnt \<and> in_int64 (offset * cnt) \<longrightarrow>
            (\<exists>rs pc. get_open_entries d cnt offset width = (Inr (rs, pc), d)))"
proof (intro conjI impI)
  assume "in_int64 width"
  with assms show "get_open_entries d 0 offset width = (Inl ZeroDivisionError, d)"
    by (rule zero_count_raises)
next
  assume "\<not> in_int64 width"
  then show "get_open_entries d 0 offset width = (Inl OverflowError, d)"
    using get_open_entries_overflow [OF assms, of width 0 offset] by simp
next
  assume c: "1 \<le> cnt"
  then have nz: "cnt \<noteq> 0" by simp
  show "fst (get_open_entries d cnt offset width) \<noteq> Inl ZeroDivisionError"
  proof (cases "in_int64 width \<and> in_int64 cnt \<and> in_int64 (offset * cnt)")
    case True
    then show ?thesis
      using get_open_entries_present [OF assms nz, of width offset] by simp
  next
    case False
    then show ?thesis
      using get_open_entries_overflow [OF assms, of width cnt offset] by simp
  qed
next
  assume a: "1 \<le> cnt \<and> in_int64 width \<and> in_int64 cnt \<and> in_int64 (offset * cnt)"
  then have nz: "cnt \<noteq> 0" by auto
  show "\<exists>rs pc. get_open_entries d cnt offset width = (Inr (rs, pc), d)"
    using get_open_entries_present [OF assms nz, of width offset] a by blast
qed

text \<open>
  The sample store with \<open>count = 0\<close> and with \<open>count = 20\<close>, at width 72.
\<close>

theorem get_open_entries_zero_count_witness:
  "notices sample_store = Some sample_table \<and>
   get_open_entries sample_store 0 0 72 = (Inl ZeroDivisionError, sample_store) \<and>
   (\<exists>rs pc. get_open_entries sample_store 20 0 72 = (Inr (rs, pc), sample_store))"
proof -
  have "(1::int) \<le> 20 \<and> in_int64 72 \<and> in_int64 20 \<and> in_int64 (0 * 20)"
    by (simp add: in_int64_def)
  then show ?thesis
    using get_open_entries_zero_count [OF notices_sample_store, where width = 72 and offset = 0 and cnt = 20]
      notices_sample_store
    by simp
qed

lemma create_entry_sqlite_error:
  "fst (create_entry now d nm msg) = Inl e \<Longrightarrow> is_sqlite3_Error e"
  by (auto simp: create_entry_def stmt_def split: option.splits if_splits)

text \<open>
  Claim C4, amended. On a store with table \<^verbatim>\<open>notices\<close>, \<^verbatim>\<open>create_entry\<close> makes no check
  of its own; every exception it raises is an \<^verbatim>\<open>sqlite3.Error\<close> (a \<open>StorageError\<close>) and
  leaves the store unchanged: \<^verbatim>\<open>ProgrammingError\<close> when a value is a byte string with a
  character above 127; else \<^verbatim>\<open>OperationalError\<close> when the largest id, or the
  \<^verbatim>\<open>AUTOINCREMENT\<close> mark, is \<open>2 ^ 63 - 1\<close>; else \<^verbatim>\<open>IntegrityError\<close>, the \<^verbatim>\<open>NOT NULL\<close>
  violation, when \<open>name\<close> or \<open>message\<close> is absent (\<^verbatim>\<open>None\<close>). Otherwise (both present,
  7-bit, an id left) it appends one row with these values, the current time as
  \<^verbatim>\<open>postdate\<close> and \<^verbatim>\<open>closedate\<close> null, and returns that row's id, which is larger than
  every id stored before.
\<close>

theorem create_entry_outcomes:
  assumes "notices d = Some t"
  shows "(\<not> (bindable nm \<and> bindable msg) \<longrightarrow>
            create_entry now d nm msg = (Inl ProgrammingError, d)) \<and>
         (bindable nm \<and> bindable msg \<and> ids_full t \<longrightarrow>
            create_entry now d nm msg = (Inl OperationalError, d)) \<and>
         (bindable nm \<and> bindable msg \<and> \<not> ids_full t \<and> (nm = None \<or> msg = None) \<longrightarrow>
            create_entry now d nm msg = (Inl IntegrityError, d)) \<and>
         (\<forall>e. fst (create_entry now d nm msg) = Inl e \<longrightarrow>
            spec_error_of e = Some StorageError \<and> snd (create_entry now d nm msg) = d) \<and>
         (\<forall>n m. nm = Some n \<and> msg = Some m \<and> seven_bit n \<and> seven_bit m \<and> \<not> ids_full t \<longrightarrow>
            (\<exists>i. create_entry now d nm msg =
                    (Inr i, d\<lparr>notices := Some (t\<lparr>seq := word_of_int i,
                       rows := rows t @
                         [\<lparr>nid = word_of_int i, name = n, message = m, postdate = now,
                           closedate = None\<rparr>]\<rparr>)\<rparr>) \<and>
                  sint (word_of_int i :: 64 word) = i \<and>
                  (\<forall>r \<in> set (rows t). sint (nid r) < i)))"
proof -
  have 1: "\<not> (bindable nm \<and> bindable msg) \<longrightarrow>
            create_entry now d nm msg = (Inl ProgrammingError, d)"
    using assms by (simp add: create_entry_def stmt_def)
  have 2: "bindable nm \<and> bindable msg \<and> ids_full t \<longrightarrow>
            create_entry now d nm msg = (Inl OperationalError, d)"
    using assms by (simp add: create_entry_def stmt_def)
  have 3: "bindable nm \<and> bindable msg \<and> \<not> ids_full t \<and> (nm = None \<or> msg = None) \<longrightarrow>
            create_entry now d nm msg = (Inl IntegrityError, d)"
    using assms by (auto simp: create_entry_def stmt_def split: option.splits)
  have 4: "\<forall>e. fst (create_entry now d nm msg) = Inl e \<longrightarrow>
            spec_error_of e = Some StorageError \<and> snd (create_entry now d nm msg) = d"
  proof (intro allI impI)
    fix e assume f: "fst (create_entry now d nm msg) = Inl e"
    then have "is_sqlite3_Error e" by (rule create_entry_sqlite_error)
    moreover have "snd (create_entry now d nm msg) = d"
      using f by (auto simp: create_entry_def split: sum.splits)
    ultimately show "spec_error_of e = Some StorageError \<and> snd (create_entry now d nm msg) = d"
      by (simp add: spec_error_of_def)
  qed
  have 5: "\<forall>n m. nm = Some n \<and> msg = Some m \<and> seven_bit n \<and> seven_bit m \<and> \<not> ids_full t \<longrightarrow>
            (\<exists>i. create_entry now d nm msg =
                    (Inr i, d\<lparr>notices := Some (t\<lparr>seq := word_of_int i,
                       rows := rows t @
                         [\<lparr>nid = word_of_int i, name = n, message = m, postdate = now,
                           closedate = None\<rparr>]\<rparr>)\<rparr>) \<and>
                  sint (word_of_int i :: 64 word) = i \<and>
                  (\<forall>r \<in> set (rows t). sint (nid r) < i))"
  proof (intro allI impI)
    fix n m
    assume a: "nm = Some n \<and> msg = Some m \<and> seven_bit n \<and> seven_bit m \<and> \<not> ids_full t"
    have e: "create_entry now d nm msg =
        (Inr (next_id t), d\<lparr>notices := Some (t\<lparr>seq := word_of_int (next_id t),
           rows := rows t @
             [\<lparr>nid = word_of_int (next_id t), name = n, message = m, postdate = now,
               closedate = None\<rparr>]\<rparr>)\<rparr>)"
      using assms a by (simp add: create_entry_def stmt_def bindable_def)
    have w: "sint (word_of_int (next_id t) :: 64 word) = next_id t"
      using a by (intro sint64_self next_id_in_range) simp
    have "\<forall>r \<in> set (rows t). sint (nid r) < next_id t"
      using next_id_above by blast
    then show "\<exists>i. create_entry now d nm msg =
                    (Inr i, d\<lparr>notices := Some (t\<lparr>seq := word_of_int i,
                       rows := rows t @
                         [\<lparr>nid = word_of_int i, name = n, message = m, postdate = now,
                           closedate = None\<rparr>]\<rparr>)\<rparr>) \<and>
                  sint (word_of_int i :: 64 word) = i \<and>
                  (\<forall>r \<in> set (rows t). sint (nid r) < i)"
      using e w by blast
  qed
  show ?thesis using 1 2 3 4 5 by blast
qed

lemma notices_fresh_store: "notices fresh_store = Some fresh_table"
  by (simp add: fresh_store_def fresh_table_def)

lemma notices_ceiling_store: "notices ceiling_store = Some ceiling_table"
  by (simp add: ceiling_store_def)

text \<open>
  On the fresh store: an absent message raises \<^verbatim>\<open>IntegrityError\<close>, Alice's notice gets
  id 1, a name with the byte 0xE9 raises \<^verbatim>\<open>ProgrammingError\<close>; on the store at the id
  ceiling the insertion raises \<^verbatim>\<open>OperationalError\<close>.
\<close>

theorem create_entry_outcomes_witness:
  "notices fresh_store = Some fresh_table \<and>
   create_entry ''2024-02-01 12:00:00'' fresh_store (Some ''Alice'') None =
     (Inl IntegrityError, fresh_store) \<and>
   fst (create_entry ''2024-02-01 12:00:00'' fresh_store (Some ''Alice'') (Some ''Hello'')) = Inr 1 \<and>
   notice_rows (snd (create_entry ''2024-02-01 12:00:00'' fresh_store (Some ''Alice'') (Some ''Hello''))) =
     [\<lparr>nid = 1, name = ''Alice'', message = ''Hello'', postdate = ''2024-02-01 12:00:00'',
       closedate = None\<rparr>] \<and>
   create_entry ''2024-02-01 12:00:00'' ceiling_store (Some ''Alice'') (Some ''Hello'') =
     (Inl OperationalError, ceiling_store) \<and>
   create_entry ''2024-02-01 12:00:00'' fresh_store (Some [CHR 0xE9]) (Some ''Hello'') =
     (Inl ProgrammingError, fresh_store)"
proof -
  have nf: "\<not> ids_full fresh_table"
    by (simp add: ids_full_def fresh_table_def max_rowid_def)
  have ba: "bindable (Some ''Alice'') \<and> bindable None \<and> bindable (Some ''Hello'')"
    by (simp add: bindable_def seven_bit_def)
  have a: "create_entry ''2024-02-01 12:00:00'' fresh_store (Some ''Alice'') None =
     (Inl IntegrityError, fresh_store)"
    using create_entry_outcomes [OF notices_fresh_store, of "Some ''Alice''" None "''2024-02-01 12:00:00''"]
      nf ba
    by simp
  have b: "create_entry ''2024-02-01 12:00:00'' fresh_store (Some ''Alice'') (Some ''Hello'') =
     (Inr 1, fresh_store\<lparr>notices := Some (fresh_table\<lparr>seq := 1,
        rows := [\<lparr>nid = 1, name = ''Alice'', message = ''Hello'',
                  postdate = ''2024-02-01 12:00:00'', closedate = None\<rparr>]\<rparr>)\<rparr>)"
    by (simp add: create_entry_def stmt_def next_id_def fresh_store_def fresh_table_def
        bindable_def seven_bit_def ids_full_def max_rowid_def)
  have full: "ids_full ceiling_table"
    by (simp add: ids_full_def ceiling_table_def max_rowid_def)
  have c: "create_entry ''2024-02-01 12:00:00'' ceiling_store (Some ''Alice'') (Some ''Hello'') =
     (Inl OperationalError, ceiling_store)"
    using create_entry_outcomes [OF notices_ceiling_store, of "Some ''Alice''" "Some ''Hello''"
        "''2024-02-01 12:00:00''"] full ba
    by simp
  have nb: "\<not> bindable (Some [CHR 0xE9])"
    by (simp add: bindable_def seven_bit_def)
  have p: "create_entry ''2024-02-01 12:00:00'' fresh_store (Some [CHR 0xE9]) (Some ''Hello'') =
     (Inl ProgrammingError, fresh_store)"
    using create_entry_outcomes [OF notices_fresh_store, of "Some [CHR 0xE9]" "Some ''Hello''"
        "''2024-02-01 12:00:00''"] nb
    by simp
  show ?thesis
    using notices_fresh_store a b c p by (simp add: notice_rows_def)
qed

text \<open>
  Claim C4, as stated, fails on the code: \<^verbatim>\<open>create_entry(None, 'Hello')\<close> raises
  \<^verbatim>\<open>sqlite3.IntegrityError\<close>, the storage layer's constraint violation (the spec's
  \<open>StorageError\<close>), not a \<open>ValidationError\<close>; the program has no validation error. And
  on the store whose largest id is \<open>2 ^ 63 - 1\<close>, present name and message insert no
  row: the engine has no id left and raises \<^verbatim>\<open>OperationalError\<close>.
\<close>

theorem create_entry_absent_name:
  "create_entry ''2024-02-01 12:00:00'' fresh_store None (Some ''Hello'') =
     (Inl IntegrityError, fresh_store) \<and>
   spec_error_of IntegrityError = Some StorageError \<and>
   spec_error_of IntegrityError \<noteq> Some ValidationError \<and>
   create_entry ''2024-02-01 12:00:00'' ceiling_store (Some ''Alice'') (Some ''Hello'') =
     (Inl OperationalError, ceiling_store)"
  by (simp add: create_entry_def stmt_def fresh_store_def spec_error_of_def bindable_def
      seven_bit_def ids_full_def max_rowid_def ceiling_store_def ceiling_table_def)

end
